theory Spec2Isabelle
  imports Main "HOL-Library.Word"
begin

section \<open>JavaScript strings\<close>

text \<open>
  A JavaScript string is a sequence of UTF-16 code units, so it is modelled as a list
  of 16-bit words. \<open>js\<close> embeds an ASCII literal of the source.
\<close>

type_synonym jschar = "16 word"
type_synonym jsstring = "jschar list"

definition js :: "string \<Rightarrow> jsstring" where
  "js s = map of_char s"

text \<open>
  \<open>String.prototype.trim\<close> removes the code units of the ECMAScript productions
  WhiteSpace and LineTerminator from both ends.
\<close>

definition isWhiteSpace :: "jschar \<Rightarrow> bool" where
  "isWhiteSpace c =
     (c \<in> set [0x09, 0x0A, 0x0B, 0x0C, 0x0D, 0x20, 0xA0, 0x1680,
                0x2028, 0x2029, 0x202F, 0x205F, 0x3000, 0xFEFF]
      \<or> (0x2000 \<le> c \<and> c \<le> 0x200A))"

definition trim :: "jsstring \<Rightarrow> jsstring" where
  "trim s = rev (dropWhile isWhiteSpace (rev (dropWhile isWhiteSpace s)))"

text \<open>\<open>s.replace(/-/g, '')\<close>: every \<open>-\<close> is deleted.\<close>

definition removeDashes :: "jsstring \<Rightarrow> jsstring" where
  "removeDashes s = filter (\<lambda>c. c \<noteq> 0x2D) s"

text \<open>
  \<open>s.split(sep)\<close> for a separator of one code unit; the result is never empty
  (\<open>''.split('.')\<close> is \<open>['']\<close>).
\<close>

fun split :: "jschar \<Rightarrow> jsstring \<Rightarrow> jsstring list" where
  "split sep [] = [[]]"
| "split sep (c # cs) =
     (case split sep cs of
        [] \<Rightarrow> [[c]]
      | p # ps \<Rightarrow> if c = sep then [] # p # ps else (c # p) # ps)"

text \<open>\<open>parts.join(sep)\<close>.\<close>

fun join :: "jsstring \<Rightarrow> jsstring list \<Rightarrow> jsstring" where
  "join sep [] = []"
| "join sep [p] = p"
| "join sep (p # q # ps) = p @ sep @ join sep (q # ps)"

text \<open>\<open>s.startsWith(p)\<close>.\<close>

definition startsWith :: "jsstring \<Rightarrow> jsstring \<Rightarrow> bool" where
  "startsWith s p = (take (length p) s = p)"

text \<open>The decimal digits, of which a date \<open>YYYY-MM-DD\<close> is made.\<close>

definition isDigit :: "jschar \<Rightarrow> bool" where
  "isDigit c = (0x30 \<le> c \<and> c \<le> 0x39)"

section \<open>The naming rules\<close>

text \<open>
  The body of the callback that the name-generating effect maps over the files
  (App.tsx, lines 67 to 97), as a function of the four values it reads: the selected
  format, the codename field, the date chosen for the file and the file's name.
\<close>

definition generatedName :: "jsstring \<Rightarrow> jsstring \<Rightarrow> jsstring \<Rightarrow> jsstring \<Rightarrow> jsstring" where
  "generatedName format codename dateForCalc name =
     (let code = (if trim codename \<noteq> [] then trim codename else js ''CODENAME'');
          date = removeDashes dateForCalc
      in if format = js ''date_codename_name'' then date @ js ''_'' @ code @ js ''_'' @ name
         else if format = js ''date_name'' then date @ js ''_'' @ name
         else if format = js ''codename_date_name'' then code @ js ''_'' @ date @ js ''_'' @ name
         else if format = js ''name_date'' then
           (let parts = split 0x2E name
            in if length parts > 1
               then (let ext = last parts; parts' = butlast parts
                     in join (js ''.'') parts' @ js ''_'' @ date @ js ''.'' @ ext)
               else name @ js ''_'' @ date)
         else date @ js ''_'' @ name)"

section \<open>Dates\<close>

text \<open>
  \<open>new Date(t).toISOString()\<close> for a time value \<open>t\<close> in milliseconds since the
  epoch (ECMAScript, Date.prototype.toISOString): a RangeError outside the range of
  \<open>\<plusminus>8.64e15\<close> ms, else \<open>YYYY-MM-DDTHH:mm:ss.sssZ\<close> in UTC, the year written with a
  sign and six digits when it is not within 0 to 9999. The calendar date of a day
  number is computed in the proleptic Gregorian calendar from 400-year eras starting
  on 1 March.
\<close>

datatype error = RangeError

definition msPerDay :: int where
  "msPerDay = 86400000"

definition civilFromDays :: "int \<Rightarrow> int \<times> int \<times> int" where
  "civilFromDays z =
     (let z' = z + 719468;
          era = z' div 146097;
          doe = z' mod 146097;
          yoe = (doe - doe div 1460 + doe div 36524 - doe div 146096) div 365;
          doy = doe - (365 * yoe + yoe div 4 - yoe div 100);
          mp = (5 * doy + 2) div 153;
          d = doy - (153 * mp + 2) div 5 + 1;
          m = (if mp < 10 then mp + 3 else mp - 9);
          y = yoe + era * 400
      in (if m \<le> 2 then y + 1 else y, m, d))"

text \<open>The decimal digits of \<open>n\<close>, on \<open>w\<close> places.\<close>

fun pad :: "nat \<Rightarrow> int \<Rightarrow> jsstring" where
  "pad 0 n = []"
| "pad (Suc w) n = pad w (n div 10) @ [word_of_int (48 + n mod 10)]"

definition yearString :: "int \<Rightarrow> jsstring" where
  "yearString y =
     (if 0 \<le> y \<and> y \<le> 9999 then pad 4 y
      else (if y < 0 then js ''-'' else js ''+'') @ pad 6 \<bar>y\<bar>)"

definition toISOString :: "int \<Rightarrow> error + jsstring" where
  "toISOString t =
     (if \<bar>t\<bar> > 8640000000000000 then Inl RangeError
      else (let (y, m, d) = civilFromDays (t div msPerDay);
                ms = t mod msPerDay
            in Inr (yearString y @ js ''-'' @ pad 2 m @ js ''-'' @ pad 2 d @ js ''T''
                    @ pad 2 (ms div 3600000) @ js '':'' @ pad 2 (ms div 60000 mod 60)
                    @ js '':'' @ pad 2 (ms div 1000 mod 60) @ js ''.'' @ pad 3 (ms mod 1000)
                    @ js ''Z'')))"

text \<open>\<open>new Date(t).toISOString().split('T')[0]\<close>, the conversion used throughout.\<close>

definition isoDate :: "int \<Rightarrow> error + jsstring" where
  "isoDate t = (case toISOString t of Inl e \<Rightarrow> Inl e | Inr s \<Rightarrow> Inr (hd (split 0x54 s)))"

section \<open>The component's state\<close>

text \<open>
  Of a \<open>File\<close> the component reads the name, the content type, the size and the
  last-modified time, an integer number of milliseconds.
\<close>

record jsFile =
  fname :: jsstring
  ftype :: jsstring
  fsize :: nat
  lastModified :: int

text \<open>
  An object URL is identified by its serial number: \<open>URL.createObjectURL\<close> returns a
  URL that no earlier call returned.
\<close>

type_synonym url = nat

text \<open>
  \<open>interface RenamedFile\<close>. The field \<open>dateString\<close> of the source is
  \<open>dateString_rf\<close> here, the state cell of the same name keeps the name.
\<close>

record renamedFile =
  originalFile :: jsFile
  newName :: jsstring
  dateString_rf :: jsstring
  previewUrl :: "url option"

text \<open>A timer set by \<open>setTimeout\<close>: its delay in ms and the entry its callback closes over.\<close>

record timer =
  delay :: nat
  captured :: renamedFile

text \<open>The anchor element that a timer's callback clicks.\<close>

record anchor =
  href :: url
  download :: jsstring
  blob :: jsFile

text \<open>
  The state cells of \<open>App\<close> (without \<open>isDraggingOverList\<close>, which only styles the
  drop zone), what React keeps for its two effects, and the part of the browser the
  component acts on:
  \<^item> \<open>cleanupFiles\<close> is the array that the cleanup function returned by the first effect
    closes over, \<open>filesChanged\<close> says that \<open>setRenamedFiles\<close> has stored a new array
    since that effect last ran (React compares the dependency by identity);
  \<^item> \<open>lastDeps\<close> holds the dependency list of the second effect at its last run;
  \<^item> \<open>urlCount\<close> counts the calls of \<open>URL.createObjectURL\<close>, \<open>revoked\<close> lists the
    arguments of the calls of \<open>URL.revokeObjectURL\<close>, \<open>timers\<close> the pending timers and
    \<open>clicked\<close> the downloads triggered, each in order.
\<close>

record app =
  renamedFiles :: "renamedFile list"
  codename :: jsstring
  format :: jsstring
  dateString :: jsstring
  useSameDateForAll :: bool
  cleanupFiles :: "renamedFile list"
  filesChanged :: bool
  lastDeps :: "jsstring \<times> jsstring \<times> jsstring \<times> bool \<times> nat"
  urlCount :: nat
  revoked :: "url list"
  timers :: "timer list"
  clicked :: "anchor list"

definition setRenamedFiles :: "renamedFile list \<Rightarrow> app \<Rightarrow> app" where
  "setRenamedFiles fs a = a\<lparr>renamedFiles := fs, filesChanged := True\<rparr>"

subsection \<open>The effects\<close>

text \<open>
  The cleanup function of the first effect (lines 53 to 61): it revokes the preview URL
  of every entry of the array it closes over.
\<close>

definition previewUrls :: "renamedFile list \<Rightarrow> url list" where
  "previewUrls fs = List.map_filter previewUrl fs"

definition cleanup :: "app \<Rightarrow> app" where
  "cleanup a = a\<lparr>revoked := revoked a @ previewUrls (cleanupFiles a)\<rparr>"

text \<open>
  The first effect depends on \<open>renamedFiles\<close>: when the array has been replaced, React
  runs the cleanup of the previous run and then the effect, which registers a cleanup
  for the current array.
\<close>

definition cleanupEffect :: "app \<Rightarrow> app" where
  "cleanupEffect a =
     (if filesChanged a
      then (cleanup a)\<lparr>cleanupFiles := renamedFiles a, filesChanged := False\<rparr>
      else a)"

text \<open>The function that the second effect passes to \<open>setRenamedFiles\<close> (lines 70 to 100).\<close>

definition generateNames ::
  "jsstring \<Rightarrow> jsstring \<Rightarrow> jsstring \<Rightarrow> bool \<Rightarrow> renamedFile list \<Rightarrow> renamedFile list" where
  "generateNames fmt cn ds same currentFiles =
     map (\<lambda>f. f\<lparr>newName :=
                  generatedName fmt cn (if same then ds else dateString_rf f)
                    (fname (originalFile f))\<rparr>) currentFiles"

definition deps :: "app \<Rightarrow> jsstring \<times> jsstring \<times> jsstring \<times> bool \<times> nat" where
  "deps a = (format a, codename a, dateString a, useSameDateForAll a, length (renamedFiles a))"

text \<open>
  The second effect (lines 64 to 102) runs when one of its dependencies has changed, and
  returns at once when there are no files.
\<close>

definition namesEffect :: "app \<Rightarrow> app" where
  "namesEffect a =
     (if lastDeps a = deps a then a
      else if length (renamedFiles a) = 0 then a\<lparr>lastDeps := deps a\<rparr>
      else setRenamedFiles
             (generateNames (format a) (codename a) (dateString a) (useSameDateForAll a)
                (renamedFiles a))
             (a\<lparr>lastDeps := deps a\<rparr>))"

text \<open>
  One render with its effects, and the renders that follow a state change: the second
  effect may store a new array, which causes one more render.
\<close>

definition commit :: "app \<Rightarrow> app" where
  "commit a = namesEffect (cleanupEffect a)"

definition rerender :: "app \<Rightarrow> app" where
  "rerender a = commit (commit a)"

text \<open>
  The state after the first render; \<open>today\<close> stands for
  \<open>new Date().toISOString().split('T')[0]\<close>.
\<close>

definition mount :: "jsstring \<Rightarrow> app" where
  "mount today =
     \<lparr>renamedFiles = [], codename = js ''PROJECT'', format = js ''date_codename_name'',
      dateString = today, useSameDateForAll = True, cleanupFiles = [], filesChanged = False,
      lastDeps = (js ''date_codename_name'', js ''PROJECT'', today, True, 0),
      urlCount = 0, revoked = [], timers = [], clicked = []\<rparr>"

text \<open>Unmounting runs the cleanup registered last.\<close>

definition unmount :: "app \<Rightarrow> app" where
  "unmount a = cleanup a"

subsection \<open>The handlers\<close>

text \<open>
  \<open>newFiles.map(...)\<close> of \<open>handleFiles\<close> (lines 118 to 126), from the counter of object
  URLs to the new entries and the counter after it. The date of each file is converted
  first, whatever the mode; a RangeError of the conversion ends the loop, and the URLs
  created for the files before it stay allocated.
\<close>

fun filesToAdd ::
  "bool \<Rightarrow> jsstring \<Rightarrow> jsFile list \<Rightarrow> nat \<Rightarrow> (error + renamedFile list) \<times> nat" where
  "filesToAdd same currentGlobalDate [] n = (Inr [], n)"
| "filesToAdd same currentGlobalDate (f # fs) n =
     (case isoDate (lastModified f) of
        Inl e \<Rightarrow> (Inl e, n)
      | Inr individualFileDate \<Rightarrow>
          (let img = startsWith (ftype f) (js ''image/'');
               rf = \<lparr>originalFile = f, newName = [],
                     dateString_rf = (if same then currentGlobalDate else individualFileDate),
                     previewUrl = (if img then Some n else None)\<rparr>
           in case filesToAdd same currentGlobalDate fs (if img then Suc n else n) of
                (Inl e, n') \<Rightarrow> (Inl e, n')
              | (Inr rfs, n') \<Rightarrow> (Inr (rf # rfs), n')))"

text \<open>
  \<open>handleFiles\<close> (lines 104 to 129). The result is the exception that leaves the handler,
  if any, and the state with the updates made before it: \<open>setDateString\<close> is called
  before the entries are built.
\<close>

definition handleFiles :: "jsFile list option \<Rightarrow> app \<Rightarrow> error option \<times> app" where
  "handleFiles selectedFiles a =
     (case selectedFiles of
        None \<Rightarrow> (None, a)
      | Some [] \<Rightarrow> (None, a)
      | Some (firstFile # others) \<Rightarrow>
          (case (if length (renamedFiles a) = 0 then isoDate (lastModified firstFile)
                 else Inr (dateString a)) of
             Inl e \<Rightarrow> (Some e, a)
           | Inr currentGlobalDate \<Rightarrow>
               (let a1 = (if length (renamedFiles a) = 0
                          then a\<lparr>dateString := currentGlobalDate\<rparr> else a)
                in case filesToAdd (useSameDateForAll a) currentGlobalDate (firstFile # others)
                          (urlCount a) of
                     (Inl e, n) \<Rightarrow> (Some e, a1\<lparr>urlCount := n\<rparr>)
                   | (Inr rfs, n) \<Rightarrow>
                       (None, setRenamedFiles (renamedFiles a @ rfs) (a1\<lparr>urlCount := n\<rparr>)))))"

text \<open>
  \<open>handleIndividualNameChange\<close> and \<open>handleIndividualDateChange\<close> (lines 157 to 171).
  The rows of the list call them with the index of an entry. At any other index
  JavaScript would store an object that has only the field written, which
  \<open>renamedFile\<close> cannot hold: the result is \<open>None\<close> there.
\<close>

definition handleIndividualNameChange :: "nat \<Rightarrow> jsstring \<Rightarrow> app \<Rightarrow> app option" where
  "handleIndividualNameChange index v a =
     (if index < length (renamedFiles a)
      then Some (setRenamedFiles
                   ((renamedFiles a)[index := (renamedFiles a ! index)\<lparr>newName := v\<rparr>]) a)
      else None)"

definition handleIndividualDateChange :: "nat \<Rightarrow> jsstring \<Rightarrow> app \<Rightarrow> app option" where
  "handleIndividualDateChange index newDate a =
     (if index < length (renamedFiles a)
      then Some (setRenamedFiles
                   ((renamedFiles a)[index := (renamedFiles a ! index)\<lparr>dateString_rf := newDate\<rparr>]) a)
      else None)"

text \<open>
  \<open>handleDateToggleChange\<close> (lines 173 to 185): \<open>syncDates\<close> is the function it passes to
  \<open>setRenamedFiles\<close>. A RangeError of a conversion there makes the render fail.
\<close>

fun syncDates :: "bool \<Rightarrow> jsstring \<Rightarrow> renamedFile list \<Rightarrow> error + renamedFile list" where
  "syncDates isChecked ds [] = Inr []"
| "syncDates isChecked ds (rf # rfs) =
     (case (if isChecked then Inr ds else isoDate (lastModified (originalFile rf))) of
        Inl e \<Rightarrow> Inl e
      | Inr d \<Rightarrow>
          (case syncDates isChecked ds rfs of
             Inl e \<Rightarrow> Inl e
           | Inr r \<Rightarrow> Inr (rf\<lparr>dateString_rf := d\<rparr> # r)))"

definition handleDateToggleChange :: "bool \<Rightarrow> app \<Rightarrow> error + app" where
  "handleDateToggleChange isChecked a =
     (case syncDates isChecked (dateString a) (renamedFiles a) of
        Inl e \<Rightarrow> Inl e
      | Inr fs \<Rightarrow> Inr (setRenamedFiles fs (a\<lparr>useSameDateForAll := isChecked\<rparr>)))"

text \<open>
  \<open>handleSaveAll\<close> (lines 187 to 203): the \<open>forEach\<close> with its index. The test
  \<open>!renamedFile.originalFile\<close> is false for every entry, an object being truthy.
\<close>

fun saveFrom :: "nat \<Rightarrow> renamedFile list \<Rightarrow> timer list" where
  "saveFrom index [] = []"
| "saveFrom index (rf # rfs) =
     (if trim (newName rf) = [] then saveFrom (Suc index) rfs
      else \<lparr>delay = index * 300, captured = rf\<rparr> # saveFrom (Suc index) rfs)"

definition handleSaveAll :: "app \<Rightarrow> app" where
  "handleSaveAll a = a\<lparr>timers := timers a @ saveFrom 0 (renamedFiles a)\<rparr>"

text \<open>
  The callback of a timer (lines 192 to 200): it creates an object URL for the blob,
  clicks an anchor whose \<open>download\<close> attribute is the trimmed name, and revokes the URL.
\<close>

definition fireTimer :: "timer \<Rightarrow> app \<Rightarrow> app" where
  "fireTimer t a =
     a\<lparr>urlCount := Suc (urlCount a),
       clicked := clicked a @ [\<lparr>href = urlCount a, download = trim (newName (captured t)),
                                blob = originalFile (captured t)\<rparr>],
       revoked := revoked a @ [urlCount a],
       timers := remove1 t (timers a)\<rparr>"

text \<open>
  \<open>handleClear\<close> (lines 205 to 210). It also empties the value of the file input, which
  is not part of the state.
\<close>

definition handleClear :: "app \<Rightarrow> app" where
  "handleClear a = setRenamedFiles [] a"

subsection \<open>Events\<close>

text \<open>
  What the user and the timers can do, and the state after the handler and the renders
  it causes. The result is \<open>None\<close> for an event that cannot happen (an index outside
  the list, a timer that is not pending) and for a render that fails.
\<close>

datatype event =
    Files "jsFile list option"
  | SetDateString jsstring
  | SetFormat jsstring
  | SetCodename jsstring
  | NameChange nat jsstring
  | DateChange nat jsstring
  | DateToggle bool
  | SaveAll
  | Clear
  | Fire timer

fun handle :: "event \<Rightarrow> app \<Rightarrow> app option" where
  "handle (Files sel) a = Some (snd (handleFiles sel a))"
| "handle (SetDateString v) a = Some (a\<lparr>dateString := v\<rparr>)"
| "handle (SetFormat v) a = Some (a\<lparr>format := v\<rparr>)"
| "handle (SetCodename v) a = Some (a\<lparr>codename := v\<rparr>)"
| "handle (NameChange i v) a = handleIndividualNameChange i v a"
| "handle (DateChange i v) a = handleIndividualDateChange i v a"
| "handle (DateToggle c) a =
     (case handleDateToggleChange c a of Inl e \<Rightarrow> None | Inr a' \<Rightarrow> Some a')"
| "handle SaveAll a = Some (handleSaveAll a)"
| "handle Clear a = Some (handleClear a)"
| "handle (Fire t) a = (if t \<in> set (timers a) then Some (fireTimer t a) else None)"

definition step :: "event \<Rightarrow> app \<Rightarrow> app option" where
  "step ev a = map_option rerender (handle ev a)"

fun run :: "event list \<Rightarrow> app \<Rightarrow> app option" where
  "run [] a = Some a"
| "run (ev # evs) a = (case step ev a of None \<Rightarrow> None | Some a' \<Rightarrow> run evs a')"

text \<open>
  Between two events the effects have nothing left to do: the dependencies of the second
  effect are those of its last run, and the cleanup registered is for the current array.
\<close>

definition settled :: "app \<Rightarrow> bool" where
  "settled a = (lastDeps a = deps a \<and> \<not> filesChanged a \<and> cleanupFiles a = renamedFiles a)"

subsection \<open>Example inputs\<close>

text \<open>
  An image last modified on 5 March 2024 and a text file last modified on 2 January 2024,
  both at 00:00 UTC.
\<close>

definition photo :: jsFile where
  "photo = \<lparr>fname = js ''photo.png'', ftype = js ''image/png'', fsize = 2048,
            lastModified = 1709596800000\<rparr>"

definition readme :: jsFile where
  "readme = \<lparr>fname = js ''notes.txt'', ftype = js ''text/plain'', fsize = 12,
            lastModified = 1704153600000\<rparr>"

text \<open>The state after both files have been dropped on the freshly mounted component.\<close>

definition staged :: app where
  "staged =
     \<lparr>renamedFiles =
        [\<lparr>originalFile = photo, newName = js ''20240305_PROJECT_photo.png'',
          dateString_rf = js ''2024-03-05'', previewUrl = Some 0\<rparr>,
         \<lparr>originalFile = readme, newName = js ''20240305_PROJECT_notes.txt'',
          dateString_rf = js ''2024-03-05'', previewUrl = None\<rparr>],
      codename = js ''PROJECT'', format = js ''date_codename_name'',
      dateString = js ''2024-03-05'', useSameDateForAll = True,
      cleanupFiles =
        [\<lparr>originalFile = photo, newName = js ''20240305_PROJECT_photo.png'',
          dateString_rf = js ''2024-03-05'', previewUrl = Some 0\<rparr>,
         \<lparr>originalFile = readme, newName = js ''20240305_PROJECT_notes.txt'',
          dateString_rf = js ''2024-03-05'', previewUrl = None\<rparr>],
      filesChanged = False,
      lastDeps = (js ''date_codename_name'', js ''PROJECT'', js ''2024-03-05'', True, 2),
      urlCount = 1, revoked = [0], timers = [], clicked = []\<rparr>"

section \<open>Strings and names\<close>

lemmas js_eval = js_def trim_def isWhiteSpace_def removeDashes_def startsWith_def isDigit_def

lemma split_not_Nil [simp]: "split sep s \<noteq> []"
  by (induction s) (auto split: list.splits)

lemma split_no_sep: "sep \<notin> set s \<Longrightarrow> split sep s = [s]"
  by (induction s) auto

lemma split_at_last_sep:
  "sep \<notin> set ext \<Longrightarrow> split sep (stem @ sep # ext) = split sep stem @ [ext]"
  by (induction stem) (auto simp: split_no_sep split: list.splits)

lemma join_split: "join [sep] (split sep s) = s"
proof (induction s)
  case Nil
  show ?case by simp
next
  case (Cons c cs)
  obtain p ps where ps: "split sep cs = p # ps"
    by (cases "split sep cs") auto
  show ?case
  proof (cases "c = sep")
    case True
    with Cons ps show ?thesis by simp
  next
    case False
    with Cons ps show ?thesis by (cases ps) auto
  qed
qed

lemma format_ids_distinct:
  "js ''name_date'' \<noteq> js ''date_codename_name''"
  "js ''name_date'' \<noteq> js ''date_name''"
  "js ''name_date'' \<noteq> js ''codename_date_name''"
  "js ''codename_date_name'' \<noteq> js ''date_codename_name''"
  "js ''codename_date_name'' \<noteq> js ''date_name''"
  "js ''date_name'' \<noteq> js ''date_codename_name''"
  by (simp_all add: js_def)

lemma removeDashes_append [simp]: "removeDashes (s @ t) = removeDashes s @ removeDashes t"
  by (simp add: removeDashes_def)

lemma removeDashes_digits: "\<forall>c\<in>set s. isDigit c \<Longrightarrow> removeDashes s = s"
proof -
  assume d: "\<forall>c\<in>set s. isDigit c"
  have "\<forall>c\<in>set s. c \<noteq> 0x2D"
  proof
    fix c assume "c \<in> set s"
    with d have "(0x30 :: jschar) \<le> c" by (simp add: isDigit_def)
    then show "c \<noteq> 0x2D" by auto
  qed
  then show ?thesis by (simp add: removeDashes_def)
qed

lemma removeDashes_dash [simp]: "removeDashes (js ''-'') = []"
  by (simp add: removeDashes_def js_def)

lemma name_date_split:
  assumes "0x2E \<notin> set ext"
  shows "generatedName (js ''name_date'') cn d (stem @ js ''.'' @ ext) =
         stem @ js ''_'' @ removeDashes d @ js ''.'' @ ext"
proof -
  have dot: "js ''.'' = [0x2E]" by (simp add: js_def)
  have parts: "split 0x2E (stem @ 0x2E # ext) = split 0x2E stem @ [ext]"
    using assms by (rule split_at_last_sep)
  have len: "length (split 0x2E stem @ [ext]) > 1"
    by (cases "split 0x2E stem") auto
  show ?thesis
    unfolding generatedName_def Let_def dot
    using len by (simp add: format_ids_distinct parts join_split)
qed

lemma name_date_nosplit:
  assumes "0x2E \<notin> set n"
  shows "generatedName (js ''name_date'') cn d n = n @ js ''_'' @ removeDashes d"
  unfolding generatedName_def Let_def
  using assms by (simp add: format_ids_distinct split_no_sep)

text \<open>
  C1, as the code has it: for a date \<open>YYYY-MM-DD\<close> of digits and a codename whose trim is
  not empty, the \<open>-\<close> are removed from the date, which leaves the eight digits
  \<open>YYYYMMDD\<close>, and the three formats \<open>date_codename_name\<close>, \<open>date_name\<close> and
  \<open>codename_date_name\<close> give \<open>{date}_{code}_{name}\<close>, \<open>{date}_{name}\<close> and
  \<open>{code}_{date}_{name}\<close>, where \<open>code\<close> is the TRIMMED codename.
\<close>

theorem generatedName_templates:
  assumes "length y = 4" and "length m = 2" and "length d = 2"
    and "\<forall>c\<in>set (y @ m @ d). isDigit c"
    and "trim cn \<noteq> []"
  shows "removeDashes (y @ js ''-'' @ m @ js ''-'' @ d) = y @ m @ d
       \<and> length (removeDashes (y @ js ''-'' @ m @ js ''-'' @ d)) = 8
       \<and> generatedName (js ''date_codename_name'') cn (y @ js ''-'' @ m @ js ''-'' @ d) n =
           (y @ m @ d) @ js ''_'' @ trim cn @ js ''_'' @ n
       \<and> generatedName (js ''date_name'') cn (y @ js ''-'' @ m @ js ''-'' @ d) n =
           (y @ m @ d) @ js ''_'' @ n
       \<and> generatedName (js ''codename_date_name'') cn (y @ js ''-'' @ m @ js ''-'' @ d) n =
           trim cn @ js ''_'' @ (y @ m @ d) @ js ''_'' @ n"
proof -
  have r: "removeDashes y = y" "removeDashes m = m" "removeDashes d = d"
    using assms(4) by (simp_all add: removeDashes_digits)
  show ?thesis
    using assms(1,2,3,5)
    by (simp add: generatedName_def r format_ids_distinct)
qed

text \<open>
  The example of the specification, and a codename with blanks around it, which the
  name does not keep.
\<close>

theorem generatedName_templates_witness:
  "generatedName (js ''date_codename_name'') (js ''DRAFT'') (js ''2024-03-05'') (js ''photo.png'')
     = js ''20240305_DRAFT_photo.png''
   \<and> generatedName (js ''date_name'') (js ''DRAFT'') (js ''2024-03-05'') (js ''photo.png'')
     = js ''20240305_photo.png''
   \<and> generatedName (js ''codename_date_name'') (js '' DRAFT '') (js ''2024-03-05'') (js ''photo.png'')
     = js ''DRAFT_20240305_photo.png''"
proof -
  have h: "length (js ''2024'') = 4" "length (js ''03'') = 2" "length (js ''05'') = 2"
    "\<forall>c\<in>set (js ''2024'' @ js ''03'' @ js ''05''). isDigit c"
    "trim (js ''DRAFT'') \<noteq> []" "trim (js '' DRAFT '') \<noteq> []"
    by (simp_all add: js_eval)
  have e: "js ''2024'' @ js ''-'' @ js ''03'' @ js ''-'' @ js ''05'' = js ''2024-03-05''"
    "trim (js ''DRAFT'') = js ''DRAFT''" "trim (js '' DRAFT '') = js ''DRAFT''"
    by (simp_all add: js_eval)
  show ?thesis
    using generatedName_templates [OF h(1,2,3,4,5), of "js ''photo.png''"]
      generatedName_templates [OF h(1,2,3,4,6), of "js ''photo.png''"]
    unfolding e by (simp add: js_def)
qed

text \<open>
  With the codename itself in the template the statement fails: the blank before
  \<open>DRAFT\<close> is not in the name.
\<close>

theorem generatedName_untrimmed_counterexample:
  "trim (js '' DRAFT'') \<noteq> []
   \<and> generatedName (js ''date_codename_name'') (js '' DRAFT'') (js ''2024-03-05'') (js ''photo.png'')
       \<noteq> js ''20240305'' @ js ''_'' @ js '' DRAFT'' @ js ''_'' @ js ''photo.png''
   \<and> generatedName (js ''date_codename_name'') (js '' DRAFT'') (js ''2024-03-05'') (js ''photo.png'')
       = js ''20240305_DRAFT_photo.png''"
  by (simp add: generatedName_def js_eval)

text \<open>
  C2, as the code has it: under \<open>name_date\<close> the name is split at its LAST \<open>.\<close> whenever
  it has one, also when the \<open>.\<close> is the whole name: for a name \<open>stem.ext\<close> whose \<open>ext\<close>
  has no \<open>.\<close> the result is \<open>{stem}_{date}.{ext}\<close>; a name without \<open>.\<close> gives
  \<open>{name}_{date}\<close>, with no extension; and every name with a \<open>.\<close> is of the first
  kind. The date is written without its \<open>-\<close>.
\<close>

theorem name_date_splits_at_last_dot:
  "(0x2E \<notin> set ext \<longrightarrow>
      generatedName (js ''name_date'') cn d (stem @ js ''.'' @ ext) =
        stem @ js ''_'' @ removeDashes d @ js ''.'' @ ext)
   \<and> (0x2E \<notin> set n \<longrightarrow>
      generatedName (js ''name_date'') cn d n = n @ js ''_'' @ removeDashes d)
   \<and> (0x2E \<in> set n \<longrightarrow> (\<exists>stem ext. n = stem @ js ''.'' @ ext \<and> 0x2E \<notin> set ext))"
proof -
  have "\<exists>stem ext. n = stem @ js ''.'' @ ext \<and> 0x2E \<notin> set ext" if "0x2E \<in> set n"
    using split_list_last [OF that] by (simp add: js_def)
  then show ?thesis
    by (simp add: name_date_split name_date_nosplit)
qed

text \<open>The two examples of the specification.\<close>

theorem name_date_splits_at_last_dot_witness:
  "generatedName (js ''name_date'') (js ''X'') (js ''2024-01-02'') (js ''report.final.pdf'')
     = js ''report.final_20240102.pdf''
   \<and> generatedName (js ''name_date'') (js ''X'') (js ''2024-01-02'') (js ''README'')
     = js ''README_20240102''"
proof -
  have h: "0x2E \<notin> set (js ''pdf'')" "0x2E \<notin> set (js ''README'')"
    by (simp_all add: js_def)
  have e: "js ''report.final'' @ js ''.'' @ js ''pdf'' = js ''report.final.pdf''"
    "js ''report.final'' @ js ''_'' @ removeDashes (js ''2024-01-02'') @ js ''.'' @ js ''pdf''
       = js ''report.final_20240102.pdf''"
    "js ''README'' @ js ''_'' @ removeDashes (js ''2024-01-02'') = js ''README_20240102''"
    by (simp_all add: js_eval)
  from name_date_splits_at_last_dot
         [of "js ''pdf''" "js ''X''" "js ''2024-01-02''" "js ''report.final''" "js ''README''"]
  show ?thesis
    using h unfolding e by blast
qed

text \<open>
  The name \<open>.\<close> has a \<open>.\<close> that is its only character, and it is split all the same:
  the result is \<open>_20240102.\<close>, the empty stem and the empty extension around the date,
  and not the unsplit \<open>._20240102\<close>.
\<close>

theorem name_date_sole_dot_counterexample:
  "generatedName (js ''name_date'') (js ''X'') (js ''2024-01-02'') (js ''.'')
     = [] @ js ''_'' @ js ''20240102'' @ js ''.'' @ []
   \<and> generatedName (js ''name_date'') (js ''X'') (js ''2024-01-02'') (js ''.'')
     \<noteq> js ''.'' @ js ''_'' @ js ''20240102''"
  by (simp add: generatedName_def js_eval Let_def)

text \<open>
  C7: the naming computation is a total function, with two silent fallbacks. A codename
  whose trim is empty is replaced by the literal \<open>CODENAME\<close>, in every format, so that
  the two formats that show the codename show \<open>CODENAME\<close>; and a format that is none of
  the four known ids gives \<open>{date}_{name}\<close>, the result of \<open>date_name\<close>.
\<close>

theorem generatedName_fallbacks:
  "(trim cn = [] \<longrightarrow>
      generatedName fmt cn d n = generatedName fmt (js ''CODENAME'') d n
      \<and> generatedName (js ''date_codename_name'') cn d n =
          removeDashes d @ js ''_'' @ js ''CODENAME'' @ js ''_'' @ n
      \<and> generatedName (js ''codename_date_name'') cn d n =
          js ''CODENAME'' @ js ''_'' @ removeDashes d @ js ''_'' @ n)
   \<and> (fmt \<notin> {js ''date_codename_name'', js ''date_name'', js ''codename_date_name'',
               js ''name_date''} \<longrightarrow>
      generatedName fmt cn d n = removeDashes d @ js ''_'' @ n
      \<and> generatedName fmt cn d n = generatedName (js ''date_name'') cn d n)"
proof -
  have c: "trim (js ''CODENAME'') = js ''CODENAME''" "js ''CODENAME'' \<noteq> []"
    by (simp_all add: js_eval)
  show ?thesis
    by (simp add: generatedName_def c format_ids_distinct)
qed

text \<open>A codename of blanks, and a format that does not exist.\<close>

theorem generatedName_fallbacks_witness:
  "generatedName (js ''date_codename_name'') (js ''   '') (js ''2024-03-05'') (js ''photo.png'')
     = js ''20240305_CODENAME_photo.png''
   \<and> generatedName (js ''codename_date_name'') (js ''   '') (js ''2024-03-05'') (js ''photo.png'')
     = js ''CODENAME_20240305_photo.png''
   \<and> generatedName (js ''no_such_format'') (js ''   '') (js ''2024-03-05'') (js ''photo.png'')
     = js ''20240305_photo.png''"
proof -
  have h: "trim (js ''   '') = []"
    "js ''no_such_format'' \<notin> {js ''date_codename_name'', js ''date_name'',
       js ''codename_date_name'', js ''name_date''}"
    by (simp_all add: js_eval)
  note t = generatedName_fallbacks
             [of "js ''   ''" "js ''no_such_format''" "js ''2024-03-05''" "js ''photo.png''"]
  from t h have
    "generatedName (js ''date_codename_name'') (js ''   '') (js ''2024-03-05'') (js ''photo.png'')
       = removeDashes (js ''2024-03-05'') @ js ''_'' @ js ''CODENAME'' @ js ''_'' @ js ''photo.png''"
    "generatedName (js ''codename_date_name'') (js ''   '') (js ''2024-03-05'') (js ''photo.png'')
       = js ''CODENAME'' @ js ''_'' @ removeDashes (js ''2024-03-05'') @ js ''_'' @ js ''photo.png''"
    "generatedName (js ''no_such_format'') (js ''   '') (js ''2024-03-05'') (js ''photo.png'')
       = removeDashes (js ''2024-03-05'') @ js ''_'' @ js ''photo.png''"
    by blast+
  then show ?thesis
    by (simp add: js_eval)
qed

section \<open>The sweep of the names\<close>

text \<open>
  C9: the sweep that regenerates the names is idempotent. With the same format,
  codename, global date and toggle, and the dates of the entries as they are, a second
  sweep right after the first leaves every entry, and so every name, as the first
  sweep made it.
\<close>

theorem generateNames_idempotent:
  "generateNames fmt cn ds same (generateNames fmt cn ds same fs) =
     generateNames fmt cn ds same fs"
  by (simp add: generateNames_def)

lemma generateNames_keeps:
  "map originalFile (generateNames fmt cn ds same fs) = map originalFile fs"
  "map dateString_rf (generateNames fmt cn ds same fs) = map dateString_rf fs"
  "map previewUrl (generateNames fmt cn ds same fs) = map previewUrl fs"
  "length (generateNames fmt cn ds same fs) = length fs"
  by (simp_all add: generateNames_def)

section \<open>Dates of the examples\<close>

lemma pad_numeral:
  "pad 2 n = [word_of_int (48 + n div 10 mod 10), word_of_int (48 + n mod 10)]"
  "pad 3 n = [word_of_int (48 + n div 10 div 10 mod 10), word_of_int (48 + n div 10 mod 10),
              word_of_int (48 + n mod 10)]"
  "pad 4 n = [word_of_int (48 + n div 10 div 10 div 10 mod 10),
              word_of_int (48 + n div 10 div 10 mod 10), word_of_int (48 + n div 10 mod 10),
              word_of_int (48 + n mod 10)]"
  by (simp_all add: eval_nat_numeral)

lemma civilFromDays_examples:
  "civilFromDays 19787 = (2024, 3, 5)"
  "civilFromDays 19724 = (2024, 1, 2)"
  unfolding civilFromDays_def Let_def by simp_all

lemma toISOString_photo:
  "toISOString 1709596800000 = Inr (js ''2024-03-05T00:00:00.000Z'')"
  unfolding toISOString_def msPerDay_def Let_def
  by (simp add: civilFromDays_examples yearString_def js_def pad_numeral)

lemma toISOString_readme:
  "toISOString 1704153600000 = Inr (js ''2024-01-02T00:00:00.000Z'')"
  unfolding toISOString_def msPerDay_def Let_def
  by (simp add: civilFromDays_examples yearString_def js_def pad_numeral)

lemma isoDate_photo: "isoDate (lastModified photo) = Inr (js ''2024-03-05'')"
  unfolding isoDate_def photo_def by (simp add: toISOString_photo) (simp add: js_def)

lemma isoDate_readme: "isoDate (lastModified readme) = Inr (js ''2024-01-02'')"
  unfolding isoDate_def readme_def by (simp add: toISOString_readme) (simp add: js_def)

lemma isoDate_out_of_range: "isoDate 8640000000000001 = Inl RangeError"
  by (simp add: isoDate_def toISOString_def)

lemma image_types:
  "startsWith (ftype photo) (js ''image/'')" "\<not> startsWith (ftype readme) (js ''image/'')"
  by (simp_all add: photo_def readme_def js_eval)

lemma file_names:
  "fname photo = js ''photo.png''" "fname readme = js ''notes.txt''"
  by (simp_all add: photo_def readme_def)

lemmas effect_defs = rerender_def commit_def namesEffect_def cleanupEffect_def cleanup_def
  setRenamedFiles_def deps_def previewUrls_def

lemma names_of_examples:
  "generatedName (js ''date_codename_name'') (js ''PROJECT'') (js ''2024-03-05'') (js ''photo.png'')
     = js ''20240305_PROJECT_photo.png''"
  "generatedName (js ''date_codename_name'') (js ''PROJECT'') (js ''2024-03-05'') (js ''notes.txt'')
     = js ''20240305_PROJECT_notes.txt''"
  by (simp_all add: generatedName_def js_eval)

lemma handleFiles_mount:
  "handleFiles (Some [photo, readme]) (mount today) =
     (None, (mount today)\<lparr>dateString := js ''2024-03-05'', urlCount := 1,
        renamedFiles :=
          [\<lparr>originalFile = photo, newName = [], dateString_rf = js ''2024-03-05'',
            previewUrl = Some 0\<rparr>,
           \<lparr>originalFile = readme, newName = [], dateString_rf = js ''2024-03-05'',
            previewUrl = None\<rparr>],
        filesChanged := True\<rparr>)"
  by (simp add: handleFiles_def mount_def isoDate_photo isoDate_readme image_types
        setRenamedFiles_def)

lemma step_Files_mount:
  "step (Files (Some [photo, readme])) (mount today) = Some staged"
  unfolding step_def handle.simps handleFiles_mount
  by (simp add: mount_def effect_defs staged_def generateNames_def file_names names_of_examples
        List.map_filter_def)

section \<open>The effects\<close>

lemma rerender_cells:
  "format (rerender a) = format a"
  "codename (rerender a) = codename a"
  "dateString (rerender a) = dateString a"
  "useSameDateForAll (rerender a) = useSameDateForAll a"
  "urlCount (rerender a) = urlCount a"
  "timers (rerender a) = timers a"
  "clicked (rerender a) = clicked a"
  by (simp_all add: effect_defs)

lemma length_rerender: "length (renamedFiles (rerender a)) = length (renamedFiles a)"
  by (simp add: effect_defs generateNames_def)

lemma settled_rerender:
  assumes "cleanupFiles a = renamedFiles a \<or> filesChanged a"
  shows "settled (rerender a)"
  using assms by (auto simp: settled_def effect_defs generateNames_def)

lemma rerender_settled: "settled a \<Longrightarrow> rerender a = a"
  by (simp add: settled_def effect_defs)

text \<open>
  A new array of the same length, with nothing else changed, makes the first effect run
  and not the second: the array stays as the handler stored it.
\<close>

lemma rerender_setRenamedFiles:
  assumes "lastDeps a = deps a" and "length fs = length (renamedFiles a)"
  shows "rerender (setRenamedFiles fs a) =
           a\<lparr>renamedFiles := fs, filesChanged := False, cleanupFiles := fs,
             revoked := revoked a @ previewUrls (cleanupFiles a)\<rparr>"
  using assms by (simp add: effect_defs)

section \<open>Edits of one entry\<close>

lemma settled_staged: "settled staged"
  by (simp add: settled_def staged_def deps_def)

text \<open>
  C8: an edit of one entry's name or date, made in a state where the effects have run,
  stores the value in that field of that entry and nothing else. After the handler and
  the renders it causes, the array is the old one with the entry at the index replaced
  by itself with the one field overwritten, and the format, the codename, the global
  date and the toggle are as before. The second effect does not run, so no name is
  regenerated: after an edit of a date the entry still has its old name.
\<close>

theorem individual_change_no_recompute:
  assumes "lastDeps a = deps a" and "index < length (renamedFiles a)"
  shows "map_option renamedFiles (step (NameChange index v) a) =
           Some ((renamedFiles a)[index := (renamedFiles a ! index)\<lparr>newName := v\<rparr>])
       \<and> map_option renamedFiles (step (DateChange index v) a) =
           Some ((renamedFiles a)[index := (renamedFiles a ! index)\<lparr>dateString_rf := v\<rparr>])
       \<and> map_option (\<lambda>a'. newName (renamedFiles a' ! index)) (step (DateChange index v) a) =
           Some (newName (renamedFiles a ! index))
       \<and> map_option (\<lambda>a'. (format a', codename a', dateString a', useSameDateForAll a'))
             (step (NameChange index v) a) =
           Some (format a, codename a, dateString a, useSameDateForAll a)
       \<and> map_option (\<lambda>a'. (format a', codename a', dateString a', useSameDateForAll a'))
             (step (DateChange index v) a) =
           Some (format a, codename a, dateString a, useSameDateForAll a)"
  using assms
  by (simp add: step_def handleIndividualNameChange_def handleIndividualDateChange_def
        rerender_setRenamedFiles)

text \<open>
  In the state with the two files, the date of the second entry is set to 1 January
  2000: its name keeps the date of the first sweep.
\<close>

theorem individual_change_no_recompute_witness:
  "map_option (\<lambda>a'. map newName (renamedFiles a')) (step (DateChange 1 (js ''2000-01-01'')) staged)
     = Some [js ''20240305_PROJECT_photo.png'', js ''20240305_PROJECT_notes.txt'']
   \<and> map_option (\<lambda>a'. map dateString_rf (renamedFiles a'))
         (step (DateChange 1 (js ''2000-01-01'')) staged)
     = Some [js ''2024-03-05'', js ''2000-01-01'']
   \<and> map_option (\<lambda>a'. map newName (renamedFiles a')) (step (NameChange 0 (js ''a.png'')) staged)
     = Some [js ''a.png'', js ''20240305_PROJECT_notes.txt'']"
proof -
  have h: "lastDeps staged = deps staged" "1 < length (renamedFiles staged)"
    "0 < length (renamedFiles staged)"
    by (simp_all add: staged_def deps_def)
  note d = individual_change_no_recompute [OF h(1) h(2), of "js ''2000-01-01''"]
  note n = individual_change_no_recompute [OF h(1) h(3), of "js ''a.png''"]
  from d have d': "map_option renamedFiles (step (DateChange 1 (js ''2000-01-01'')) staged) =
      Some ((renamedFiles staged)[1 := (renamedFiles staged ! 1)\<lparr>dateString_rf := js ''2000-01-01''\<rparr>])"
    by blast
  from n have n': "map_option renamedFiles (step (NameChange 0 (js ''a.png'')) staged) =
      Some ((renamedFiles staged)[0 := (renamedFiles staged ! 0)\<lparr>newName := js ''a.png''\<rparr>])"
    by blast
  from d' n' show ?thesis
    by (auto simp: staged_def)
qed

section \<open>Adding files\<close>

lemma handleFiles_nonempty_dateString:
  "renamedFiles a \<noteq> [] \<Longrightarrow> dateString (snd (handleFiles sel a)) = dateString a"
  by (auto simp: handleFiles_def setRenamedFiles_def Let_def
      split: option.splits list.splits sum.splits prod.splits)

lemma handleFiles_empty_dateString:
  assumes "renamedFiles a = []" and "isoDate (lastModified f) = Inr d"
  shows "dateString (snd (handleFiles (Some (f # fs)) a)) = d"
  using assms
  by (auto simp: handleFiles_def setRenamedFiles_def Let_def
      split: option.splits list.splits sum.splits prod.splits)

text \<open>
  C3: when files are added to an EMPTY list, the global date becomes the date,
  \<open>YYYY-MM-DD\<close>, of the last-modified time of the FIRST of the new files, whatever the
  times of the files after it; when files are added to a list that is not empty, the
  global date is left as it is. Both hold for the handler and for the state after the
  renders that follow it, in the global mode as in the other.
\<close>

theorem handleFiles_seeds_dateString:
  "(renamedFiles a = [] \<and> isoDate (lastModified f) = Inr d \<longrightarrow>
      dateString (snd (handleFiles (Some (f # fs)) a)) = d
      \<and> map_option dateString (step (Files (Some (f # fs))) a) = Some d)
   \<and> (renamedFiles a \<noteq> [] \<longrightarrow>
      dateString (snd (handleFiles sel a)) = dateString a
      \<and> map_option dateString (step (Files sel) a) = Some (dateString a))"
  by (simp add: step_def rerender_cells handleFiles_nonempty_dateString
        handleFiles_empty_dateString)

text \<open>
  The image of 5 March and then the text file of 2 January, the earlier of the two, are
  added to the empty list: the global date is 5 March. The text file alone is then added
  to the list of two: the global date stays.
\<close>

theorem handleFiles_seeds_dateString_witness:
  "map_option dateString (step (Files (Some [photo, readme])) (mount (js ''2026-11-03'')))
     = Some (js ''2024-03-05'')
   \<and> lastModified readme < lastModified photo
   \<and> useSameDateForAll (mount (js ''2026-11-03''))
   \<and> map_option dateString (step (Files (Some [readme])) staged) = Some (js ''2024-03-05'')"
proof -
  have h: "renamedFiles (mount (js ''2026-11-03'')) = []"
    "isoDate (lastModified photo) = Inr (js ''2024-03-05'')"
    "renamedFiles staged \<noteq> []"
    by (simp_all add: mount_def isoDate_photo staged_def)
  from handleFiles_seeds_dateString
         [of "mount (js ''2026-11-03'')" photo "js ''2024-03-05''" "[readme]"]
       h(1,2)
  have 1: "map_option dateString (step (Files (Some [photo, readme])) (mount (js ''2026-11-03'')))
     = Some (js ''2024-03-05'')"
    by blast
  from handleFiles_seeds_dateString [of staged _ _ _ "Some [readme]"] h(3)
  have 2: "map_option dateString (step (Files (Some [readme])) staged) = Some (dateString staged)"
    by blast
  from 1 2 show ?thesis
    by (simp add: staged_def mount_def photo_def readme_def)
qed

section \<open>The toggle\<close>

lemma syncDates_True:
  "syncDates True ds fs = Inr (map (\<lambda>rf. rf\<lparr>dateString_rf := ds\<rparr>) fs)"
  by (induction fs) simp_all

lemma syncDates_False:
  assumes "\<forall>rf\<in>set fs. isoDate (lastModified (originalFile rf)) \<noteq> Inl RangeError"
  shows "\<exists>fs'. syncDates False ds fs = Inr fs'
           \<and> list_all2 (\<lambda>rf rf'. isoDate (lastModified (originalFile rf)) = Inr (dateString_rf rf')
                                 \<and> rf' = rf\<lparr>dateString_rf := dateString_rf rf'\<rparr>) fs fs'"
  using assms
proof (induction fs)
  case Nil
  show ?case by simp
next
  case (Cons rf fs)
  then obtain fs' where fs': "syncDates False ds fs = Inr fs'"
    "list_all2 (\<lambda>rf rf'. isoDate (lastModified (originalFile rf)) = Inr (dateString_rf rf')
                         \<and> rf' = rf\<lparr>dateString_rf := dateString_rf rf'\<rparr>) fs fs'"
    by auto
  from Cons.prems obtain d where d: "isoDate (lastModified (originalFile rf)) = Inr d"
    by (cases "isoDate (lastModified (originalFile rf))") (auto intro: error.exhaust)
  show ?case
    using fs' d by simp
qed

text \<open>
  C4: the handler of the toggle sweeps the whole list in one call. Switched off, it
  gives every entry the date, \<open>YYYY-MM-DD\<close>, of the last-modified time of the entry's own
  file, whatever date the entry had; switched on, it gives every entry the current
  global date. In both sweeps each entry is the old entry with the date overwritten: no
  other field of it is changed. The files of the entries are files that were added, so
  their times are times that can be converted.
\<close>

theorem handleDateToggleChange_sweeps:
  "((\<forall>rf\<in>set (renamedFiles a). isoDate (lastModified (originalFile rf)) \<noteq> Inl RangeError) \<longrightarrow>
      (\<exists>fs'. handleDateToggleChange False a =
                Inr (setRenamedFiles fs' (a\<lparr>useSameDateForAll := False\<rparr>))
          \<and> list_all2 (\<lambda>rf rf'. isoDate (lastModified (originalFile rf)) = Inr (dateString_rf rf')
                                \<and> rf' = rf\<lparr>dateString_rf := dateString_rf rf'\<rparr>)
                (renamedFiles a) fs'))
   \<and> handleDateToggleChange True a =
       Inr (setRenamedFiles (map (\<lambda>rf. rf\<lparr>dateString_rf := dateString a\<rparr>) (renamedFiles a))
              (a\<lparr>useSameDateForAll := True\<rparr>))"
proof -
  have "\<exists>fs'. handleDateToggleChange False a =
                Inr (setRenamedFiles fs' (a\<lparr>useSameDateForAll := False\<rparr>))
          \<and> list_all2 (\<lambda>rf rf'. isoDate (lastModified (originalFile rf)) = Inr (dateString_rf rf')
                                \<and> rf' = rf\<lparr>dateString_rf := dateString_rf rf'\<rparr>)
                (renamedFiles a) fs'"
    if "\<forall>rf\<in>set (renamedFiles a). isoDate (lastModified (originalFile rf)) \<noteq> Inl RangeError"
    using syncDates_False [OF that, of "dateString a"]
    by (auto simp: handleDateToggleChange_def)
  then show ?thesis
    by (simp add: handleDateToggleChange_def syncDates_True)
qed

text \<open>
  In the state with the two files, both dated 5 March by the global date, switching the
  toggle off gives the text file its own date, 2 January; switching it on in a state
  whose entries have other dates gives both the global date.
\<close>

theorem handleDateToggleChange_sweeps_witness:
  "(case handleDateToggleChange False staged of
      Inl e \<Rightarrow> []
    | Inr a' \<Rightarrow> map dateString_rf (renamedFiles a'))
     = [js ''2024-03-05'', js ''2024-01-02'']
   \<and> (case handleDateToggleChange True
             (staged\<lparr>renamedFiles := map (\<lambda>rf. rf\<lparr>dateString_rf := js ''2000-01-01''\<rparr>)
                                       (renamedFiles staged)\<rparr>) of
      Inl e \<Rightarrow> []
    | Inr a' \<Rightarrow> map dateString_rf (renamedFiles a'))
     = [js ''2024-03-05'', js ''2024-03-05'']"
proof -
  let ?P = "\<lambda>rf rf'. isoDate (lastModified (originalFile rf)) = Inr (dateString_rf rf')
                     \<and> rf' = rf\<lparr>dateString_rf := dateString_rf rf'\<rparr>"
  let ?b = "staged\<lparr>renamedFiles := map (\<lambda>rf. rf\<lparr>dateString_rf := js ''2000-01-01''\<rparr>)
                                       (renamedFiles staged)\<rparr>"
  have h: "\<forall>rf\<in>set (renamedFiles staged).
             isoDate (lastModified (originalFile rf)) \<noteq> Inl RangeError"
    by (simp add: staged_def isoDate_photo isoDate_readme)
  from handleDateToggleChange_sweeps [of staged] h
  obtain fs' where fs': "handleDateToggleChange False staged =
      Inr (setRenamedFiles fs' (staged\<lparr>useSameDateForAll := False\<rparr>))"
    "list_all2 ?P (renamedFiles staged) fs'"
    by blast
  from fs'(2) obtain x y where xy: "fs' = [x, y]"
    "isoDate (lastModified photo) = Inr (dateString_rf x)"
    "isoDate (lastModified readme) = Inr (dateString_rf y)"
    by (auto simp: staged_def list_all2_Cons1)
  from xy(2,3) have "dateString_rf x = js ''2024-03-05''" "dateString_rf y = js ''2024-01-02''"
    by (simp_all add: isoDate_photo isoDate_readme)
  with fs'(1) xy(1) have 1: "(case handleDateToggleChange False staged of
      Inl e \<Rightarrow> [] | Inr a' \<Rightarrow> map dateString_rf (renamedFiles a'))
     = [js ''2024-03-05'', js ''2024-01-02'']"
    by (simp add: setRenamedFiles_def)
  from handleDateToggleChange_sweeps [of ?b]
  have "handleDateToggleChange True ?b =
       Inr (setRenamedFiles (map (\<lambda>rf. rf\<lparr>dateString_rf := dateString ?b\<rparr>) (renamedFiles ?b))
              (?b\<lparr>useSameDateForAll := True\<rparr>))"
    by blast
  then have 2: "(case handleDateToggleChange True ?b of
      Inl e \<Rightarrow> [] | Inr a' \<Rightarrow> map dateString_rf (renamedFiles a'))
     = [js ''2024-03-05'', js ''2024-03-05'']"
    by (simp add: setRenamedFiles_def staged_def)
  from 1 2 show ?thesis
    by blast
qed

section \<open>Saving\<close>

lemma saveFrom_eq:
  "saveFrom k rfs =
     map (\<lambda>i. \<lparr>delay = (k + i) * 300, captured = rfs ! i\<rparr>)
       (filter (\<lambda>i. trim (newName (rfs ! i)) \<noteq> []) [0..<length rfs])"
proof (induction rfs arbitrary: k)
  case Nil
  show ?case by simp
next
  case (Cons rf rfs)
  have upt: "[0..<length (rf # rfs)] = 0 # map Suc [0..<length rfs]"
    by (simp add: upt_conv_Cons map_Suc_upt del: upt_Suc)
  show ?case
    unfolding upt by (simp add: Cons.IH filter_map comp_def)
qed

lemma saveFrom_none: "\<forall>rf\<in>set rfs. trim (newName rf) = [] \<Longrightarrow> saveFrom k rfs = []"
  by (induction rfs arbitrary: k) simp_all

text \<open>
  C5: \<open>handleSaveAll\<close> goes through the entries in the order of the list and sets one
  timer for each entry whose trimmed name is not empty, with the delay \<open>index * 300\<close> ms
  where \<open>index\<close> is the position of the entry among ALL the entries; the other entries
  get no timer. The timers are added to the pending ones and nothing else of the state
  changes; when no entry has a name, nothing changes at all.
\<close>

theorem handleSaveAll_schedule:
  "timers (handleSaveAll a) =
     timers a @ map (\<lambda>i. \<lparr>delay = i * 300, captured = renamedFiles a ! i\<rparr>)
                  (filter (\<lambda>i. trim (newName (renamedFiles a ! i)) \<noteq> [])
                     [0..<length (renamedFiles a)])
   \<and> handleSaveAll a = a\<lparr>timers := timers (handleSaveAll a)\<rparr>
   \<and> ((\<forall>rf\<in>set (renamedFiles a). trim (newName rf) = []) \<longrightarrow> handleSaveAll a = a)"
  by (simp add: handleSaveAll_def saveFrom_eq [of 0] saveFrom_none [of _ 0, unfolded saveFrom_eq])

text \<open>
  Three entries of which the second has a name of blanks: two timers, at 0 ms and at
  600 ms, for the first and the third entry. And with no entry at all, nothing changes.
\<close>

theorem handleSaveAll_schedule_witness:
  "map delay (timers (handleSaveAll (staged\<lparr>renamedFiles :=
      [\<lparr>originalFile = photo, newName = js ''a.png'', dateString_rf = [], previewUrl = None\<rparr>,
       \<lparr>originalFile = photo, newName = js ''  '', dateString_rf = [], previewUrl = None\<rparr>,
       \<lparr>originalFile = readme, newName = js ''c.txt'', dateString_rf = [], previewUrl = None\<rparr>]\<rparr>)))
     = [0, 600]
   \<and> map (fname \<circ> originalFile \<circ> captured) (timers (handleSaveAll (staged\<lparr>renamedFiles :=
      [\<lparr>originalFile = photo, newName = js ''a.png'', dateString_rf = [], previewUrl = None\<rparr>,
       \<lparr>originalFile = photo, newName = js ''  '', dateString_rf = [], previewUrl = None\<rparr>,
       \<lparr>originalFile = readme, newName = js ''c.txt'', dateString_rf = [], previewUrl = None\<rparr>]\<rparr>)))
     = [js ''photo.png'', js ''notes.txt'']
   \<and> handleSaveAll (mount (js ''2026-11-03'')) = mount (js ''2026-11-03'')"
proof -
  let ?a = "staged\<lparr>renamedFiles :=
      [\<lparr>originalFile = photo, newName = js ''a.png'', dateString_rf = [], previewUrl = None\<rparr>,
       \<lparr>originalFile = photo, newName = js ''  '', dateString_rf = [], previewUrl = None\<rparr>,
       \<lparr>originalFile = readme, newName = js ''c.txt'', dateString_rf = [], previewUrl = None\<rparr>]\<rparr>"
  have t: "trim (js ''a.png'') \<noteq> []" "trim (js ''  '') = []" "trim (js ''c.txt'') \<noteq> []"
    by (simp_all add: js_eval)
  have u: "[0..<length (renamedFiles ?a)] = [0, 1, 2]"
    by (simp add: upt_conv_Cons del: upt_Suc)
  have f: "filter (\<lambda>i. trim (newName (renamedFiles ?a ! i)) \<noteq> []) [0, 1, 2] = [0, 2]"
    by (simp add: t)
  from handleSaveAll_schedule [of ?a]
  have 1: "timers (handleSaveAll ?a) =
     timers ?a @ map (\<lambda>i. \<lparr>delay = i * 300, captured = renamedFiles ?a ! i\<rparr>) [0, 2]"
    unfolding u f by blast
  have h: "\<forall>rf\<in>set (renamedFiles (mount (js ''2026-11-03''))). trim (newName rf) = []"
    by (simp add: mount_def)
  from handleSaveAll_schedule [of "mount (js ''2026-11-03'')"] h
  have 2: "handleSaveAll (mount (js ''2026-11-03'')) = mount (js ''2026-11-03'')"
    by blast
  have 3: "timers ?a = []"
    by (simp add: staged_def)
  show ?thesis
    unfolding 1 3 using 2 by (simp add: file_names)
qed

text \<open>
  C10: for every entry whose trimmed name is not empty, \<open>handleSaveAll\<close> sets a timer
  that closes over the entry, and the anchor that the timer clicks, in whatever state it
  fires, has the TRIMMED name of that entry as its \<open>download\<close> attribute and the entry's
  file as its content. The name stored in the entry is not trimmed.
\<close>

theorem download_is_trimmed_name:
  assumes "index < length (renamedFiles a)"
    and "trim (newName (renamedFiles a ! index)) \<noteq> []"
  shows "\<lparr>delay = index * 300, captured = renamedFiles a ! index\<rparr> \<in> set (timers (handleSaveAll a))
       \<and> clicked (fireTimer \<lparr>delay = index * 300, captured = renamedFiles a ! index\<rparr> b) =
           clicked b @ [\<lparr>href = urlCount b,
                          download = trim (newName (renamedFiles a ! index)),
                          blob = originalFile (renamedFiles a ! index)\<rparr>]
       \<and> renamedFiles (handleSaveAll a) = renamedFiles a"
proof -
  from assms have "index \<in> set (filter (\<lambda>i. trim (newName (renamedFiles a ! i)) \<noteq> [])
                                 [0..<length (renamedFiles a)])"
    by simp
  then have "\<lparr>delay = index * 300, captured = renamedFiles a ! index\<rparr>
               \<in> set (saveFrom 0 (renamedFiles a))"
    unfolding saveFrom_eq by (simp add: image_iff)
  then show ?thesis
    by (simp add: handleSaveAll_def fireTimer_def)
qed

text \<open>
  The name of the first entry is edited to \<open>a.png\<close> with a blank before and after: the
  download is called \<open>a.png\<close>, the entry still shows the blanks.
\<close>

theorem download_is_trimmed_name_witness:
  "map download (clicked (fireTimer
       \<lparr>delay = 0, captured = (renamedFiles staged ! 0)\<lparr>newName := js '' a.png ''\<rparr>\<rparr>
       (handleSaveAll (staged\<lparr>renamedFiles :=
           (renamedFiles staged)[0 := (renamedFiles staged ! 0)\<lparr>newName := js '' a.png ''\<rparr>]\<rparr>))))
     = [js ''a.png'']
   \<and> newName (renamedFiles (handleSaveAll (staged\<lparr>renamedFiles :=
           (renamedFiles staged)[0 := (renamedFiles staged ! 0)\<lparr>newName := js '' a.png ''\<rparr>]\<rparr>)) ! 0)
     = js '' a.png ''
   \<and> js '' a.png '' \<noteq> js ''a.png''"
proof -
  let ?a = "staged\<lparr>renamedFiles :=
           (renamedFiles staged)[0 := (renamedFiles staged ! 0)\<lparr>newName := js '' a.png ''\<rparr>]\<rparr>"
  have e: "renamedFiles ?a ! 0 = (renamedFiles staged ! 0)\<lparr>newName := js '' a.png ''\<rparr>"
    by (simp add: staged_def)
  have t: "trim (js '' a.png '') = js ''a.png''"
    by (simp add: js_eval)
  have h: "0 < length (renamedFiles ?a)" "trim (newName (renamedFiles ?a ! 0)) \<noteq> []"
    unfolding e by (simp_all add: staged_def t) (simp add: js_def)
  note d = download_is_trimmed_name [OF h, of "handleSaveAll ?a"]
  from d have c: "clicked (fireTimer \<lparr>delay = 0 * 300, captured = renamedFiles ?a ! 0\<rparr> (handleSaveAll ?a)) =
           clicked (handleSaveAll ?a) @ [\<lparr>href = urlCount (handleSaveAll ?a),
                          download = trim (newName (renamedFiles ?a ! 0)),
                          blob = originalFile (renamedFiles ?a ! 0)\<rparr>]"
    by blast
  from d have r: "renamedFiles (handleSaveAll ?a) = renamedFiles ?a"
    by blast
  have k: "clicked (handleSaveAll ?a) = []"
    by (simp add: handleSaveAll_def staged_def)
  have n: "js '' a.png '' \<noteq> js ''a.png''"
    by (simp add: js_def)
  from c have "map download (clicked (fireTimer
       \<lparr>delay = 0, captured = (renamedFiles staged ! 0)\<lparr>newName := js '' a.png ''\<rparr>\<rparr>
       (handleSaveAll ?a))) = [js ''a.png'']"
    unfolding e k by (simp add: t)
  moreover have "newName (renamedFiles (handleSaveAll ?a) ! 0) = js '' a.png ''"
    unfolding r e by simp
  ultimately show ?thesis
    using n by blast
qed

section \<open>Preview URLs\<close>

text \<open>
  C6 does not hold of the code. The cleanup of the first effect runs whenever
  \<open>renamedFiles\<close> is replaced, not only when the list is cleared or the component is
  unmounted, and it revokes the preview URLs of entries that stay in the list. Adding
  the two files to the freshly mounted component is enough: the name-generating effect
  replaces the array, the cleanup for the array before it revokes URL 0, and the first
  entry of the list still has URL 0 as its preview.
\<close>

theorem preview_url_revoked_while_in_use:
  "map_option (\<lambda>a. (map previewUrl (renamedFiles a), revoked a))
     (step (Files (Some [photo, readme])) (mount (js ''2026-11-03'')))
     = Some ([Some 0, None], [0])"
  by (simp add: step_Files_mount) (simp add: staged_def)

text \<open>
  What does hold: in a state where the effects have run, clearing the list and
  unmounting the component each revoke the preview URL of every entry.
\<close>

lemma clear_revokes_previews:
  assumes "settled a"
  shows "map_option revoked (step Clear a) = Some (revoked a @ previewUrls (renamedFiles a))"
    and "map_option renamedFiles (step Clear a) = Some []"
  using assms
  by (simp_all add: settled_def step_def handleClear_def effect_defs)

lemma unmount_revokes_previews:
  "settled a \<Longrightarrow> revoked (unmount a) = revoked a @ previewUrls (renamedFiles a)"
  by (simp add: settled_def unmount_def cleanup_def)

section \<open>The states the component reaches\<close>

lemma settled_mount: "settled (mount today)"
  by (simp add: settled_def mount_def deps_def)

lemma handle_cleanupFiles:
  assumes "handle ev a = Some b" and "cleanupFiles a = renamedFiles a"
  shows "cleanupFiles b = renamedFiles b \<or> filesChanged b"
proof (cases ev)
  case (Files sel)
  with assms show ?thesis
    by (auto simp: handleFiles_def setRenamedFiles_def Let_def
        split: option.splits list.splits sum.splits prod.splits)
next
  case (DateToggle c)
  with assms show ?thesis
    by (auto simp: handleDateToggleChange_def setRenamedFiles_def split: sum.splits)
qed (use assms in \<open>auto simp: handleIndividualNameChange_def handleIndividualDateChange_def
       setRenamedFiles_def handleSaveAll_def handleClear_def fireTimer_def split: if_splits\<close>)

text \<open>After every event the effects have run.\<close>

lemma step_settled:
  assumes "settled a" and "step ev a = Some a'"
  shows "settled a'"
proof -
  from assms(2) obtain b where b: "handle ev a = Some b" "a' = rerender b"
    by (auto simp: step_def)
  from assms(1) have "cleanupFiles a = renamedFiles a"
    by (simp add: settled_def)
  from handle_cleanupFiles [OF b(1) this] show ?thesis
    unfolding b(2) by (rule settled_rerender)
qed

lemma run_settled: "settled a \<Longrightarrow> run evs a = Some a' \<Longrightarrow> settled a'"
  by (induction evs arbitrary: a) (auto split: option.splits dest: step_settled)

text \<open>
  Every entry is made by \<open>handleFiles\<close>, which converts the time of its file, and no
  handler changes the file of an entry: the conversion in the sweep of the toggle cannot
  fail, and the toggle can always be switched.
\<close>

lemma filesToAdd_files:
  assumes "filesToAdd same g fs n = (Inr rfs, n')"
  shows "map originalFile rfs = fs \<and> (\<forall>f\<in>set fs. isoDate (lastModified f) \<noteq> Inl RangeError)"
  using assms
proof (induction fs arbitrary: n rfs)
  case Nil
  then show ?case by simp
next
  case (Cons f fs)
  from Cons.prems obtain d where d: "isoDate (lastModified f) = Inr d"
    by (auto split: sum.splits)
  let ?n = "if startsWith (ftype f) (js ''image/'') then Suc n else n"
  from Cons.prems d obtain rfs0 where
    r: "filesToAdd same g fs ?n = (Inr rfs0, n')" and "originalFile (hd rfs) = f" "tl rfs = rfs0"
    "rfs \<noteq> []"
    by (auto simp: Let_def split: sum.splits prod.splits)
  with Cons.IH [OF r] d show ?case
    by (cases rfs) auto
qed

lemma syncDates_files: "syncDates c ds fs = Inr fs' \<Longrightarrow> map originalFile fs' = map originalFile fs"
  by (induction fs arbitrary: fs') (auto split: sum.splits if_splits)

lemma rerender_files: "map originalFile (renamedFiles (rerender a)) = map originalFile (renamedFiles a)"
  by (simp add: effect_defs generateNames_keeps)

lemma map_update_same: "(map f xs)[i := f (xs ! i)] = map f xs"
  by (simp add: map_update [symmetric])

lemma handle_files:
  assumes "handle ev a = Some b"
    and "\<forall>f\<in>set (map originalFile (renamedFiles a)). isoDate (lastModified f) \<noteq> Inl RangeError"
  shows "\<forall>f\<in>set (map originalFile (renamedFiles b)). isoDate (lastModified f) \<noteq> Inl RangeError"
proof (cases ev)
  case (Files sel)
  show ?thesis
  proof (cases "\<exists>rfs. renamedFiles b = renamedFiles a @ rfs
                  \<and> (\<forall>f\<in>set (map originalFile rfs). isoDate (lastModified f) \<noteq> Inl RangeError)")
    case True
    with assms(2) show ?thesis by auto
  next
    case False
    have "renamedFiles b = renamedFiles a @ []"
      using assms(1) Files False
      by (auto simp: handleFiles_def setRenamedFiles_def Let_def
          split: option.splits list.splits sum.splits prod.splits if_splits
          dest!: filesToAdd_files)
    with False show ?thesis by auto
  qed
next
  case (NameChange i v)
  with assms(1) have "map originalFile (renamedFiles b) = map originalFile (renamedFiles a)"
    by (auto simp: handleIndividualNameChange_def setRenamedFiles_def map_update
        map_update_same split: if_splits)
  with assms(2) show ?thesis by simp
next
  case (DateChange i v)
  with assms(1) have "map originalFile (renamedFiles b) = map originalFile (renamedFiles a)"
    by (auto simp: handleIndividualDateChange_def setRenamedFiles_def map_update
        map_update_same split: if_splits)
  with assms(2) show ?thesis by simp
next
  case (DateToggle c)
  with assms(1) have "map originalFile (renamedFiles b) = map originalFile (renamedFiles a)"
    by (auto simp: handleDateToggleChange_def setRenamedFiles_def
        split: sum.splits dest: syncDates_files)
  with assms(2) show ?thesis by simp
qed (use assms in \<open>auto simp: handleSaveAll_def handleClear_def setRenamedFiles_def fireTimer_def
       split: if_splits\<close>)

lemma run_files:
  assumes "run evs a = Some a'"
    and "\<forall>f\<in>set (map originalFile (renamedFiles a)). isoDate (lastModified f) \<noteq> Inl RangeError"
  shows "\<forall>f\<in>set (map originalFile (renamedFiles a')). isoDate (lastModified f) \<noteq> Inl RangeError"
  using assms
proof (induction evs arbitrary: a)
  case Nil
  then show ?case by simp
next
  case (Cons ev evs)
  from Cons.prems(1) obtain b where b: "handle ev a = Some b" "run evs (rerender b) = Some a'"
    by (auto simp: step_def split: option.splits)
  from handle_files [OF b(1) Cons.prems(2)] show ?case
    by (intro Cons.IH [OF b(2)]) (simp only: rerender_files)
qed

lemma toggle_never_fails:
  assumes "run evs (mount today) = Some a"
  shows "step (DateToggle c) a \<noteq> None"
proof -
  from run_files [OF assms]
  have "\<forall>rf\<in>set (renamedFiles a). isoDate (lastModified (originalFile rf)) \<noteq> Inl RangeError"
    by (simp add: mount_def)
  from syncDates_False [OF this, of "dateString a"] show ?thesis
    by (cases c) (auto simp: step_def handleDateToggleChange_def syncDates_True)
qed

section \<open>A file whose time cannot be converted\<close>

text \<open>
  When the second of two new files has a time beyond the range of \<open>Date\<close>, the
  conversion throws inside \<open>handleFiles\<close>: no entry is added, and the global date and the
  object URL made for the first file before the exception remain.
\<close>

lemma handleFiles_RangeError:
  "handleFiles (Some [photo, readme\<lparr>lastModified := 8640000000000001\<rparr>]) (mount today) =
     (Some RangeError, (mount today)\<lparr>dateString := js ''2024-03-05'', urlCount := 1\<rparr>)"
  by (simp add: handleFiles_def mount_def isoDate_photo isoDate_out_of_range image_types)

end
